theory Spec2Isabelle
  imports Complex_Main
begin

section \<open>Data model of the page controller (content/content-script.js)\<close>

text \<open>
  A video element is a JavaScript object; the controller compares elements by identity
  and keeps them as keys of a \<open>Map\<close>. An element is modelled as a natural number
  (its identity), and what the controller reads from it lives in a store from identities
  to the record \<open>element\<close>. The fields are the properties that \<open>isValidVideo\<close>,
  \<open>getActiveVideo\<close> and the speed operations read or write.

  The setter of \<open>playbackRate\<close> belongs to the host and may throw; the source wraps it in
  \<open>try\<close>/\<open>catch\<close>. \<open>acceptsRate e r\<close> says that assigning the finite rate \<open>r\<close> to
  the element succeeds. Reading a property of an element does not throw. Widths, heights
  and rates are real numbers.

  The event listeners that the controller attaches to the videos it tracks and its error
  log are left out: none of the operations below reads them.
\<close>

type_synonym elem = nat

record element =
  tagIsVideo :: bool
  rectWidth :: real
  rectHeight :: real
  hasSrc :: bool
  hasOffsetParent :: bool
  displayNone :: bool
  visibilityHidden :: bool
  opacityZero :: bool
  rateIsNumber :: bool
  playbackRate :: real
  paused :: bool
  ended :: bool
  attached :: bool
  acceptsRate :: "real \<Rightarrow> bool"

datatype platform = Youtube | Vimeo | Netflix | Generic

text \<open>
  The value of one entry of \<open>trackedVideos\<close>. \<open>lastInteraction\<close> is a reading of
  \<open>Date.now()\<close>, the milliseconds since the epoch: a natural number.
\<close>

record video_state =
  originalRate :: real
  isSpeedBoosted :: bool
  platform :: platform
  lastInteraction :: nat

record modifier_flags =
  ctrl :: bool
  alt :: bool
  shift :: bool
  meta :: bool

record hotkey_state =
  isPressed :: bool
  currentKey :: "string option"
  modifiers :: modifier_flags
  preventMultipleActivations :: bool

record hotkey_config =
  hk_key :: string
  hk_modifiers :: "string list option"
  hk_enabled :: bool

record settings =
  hotkey :: "hotkey_config option"
  speedMultiplier :: real
  showIndicator :: bool

text \<open>
  The controller together with the part of the page it works on. \<open>platformQuery\<close> is what
  the platform-specific selectors of the current host name match, \<open>genericQuery\<close> what
  \<open>document.querySelectorAll("video")\<close> returns, both in document order.
  \<open>indicators\<close> are the nodes with the id of the speed indicator, in document order, each
  with the flag "carries the hiding class"; \<open>styleElements\<close> counts the style nodes of the
  extension. \<open>trackedVideos\<close> is the \<open>Map\<close> in insertion order.
\<close>

record controller =
  elems :: "elem \<Rightarrow> element"
  platformQuery :: "elem list"
  genericQuery :: "elem list"
  pagePlatform :: platform
  docHidden :: bool
  indicators :: "bool list"
  styleElements :: nat
  settings :: "settings option"
  trackedVideos :: "(elem \<times> video_state) list"
  lastActiveVideo :: "elem option"
  hotkeyState :: hotkey_state
  autoHideTimer :: bool

section \<open>Detection and tracking\<close>

definition isValidVideo :: "element \<Rightarrow> bool" where
  "isValidVideo e =
     (if \<not> tagIsVideo e then False
      else
        let hasSize = (rectWidth e > 0 \<and> rectHeight e > 0);
            isVisible = (hasOffsetParent e \<and> \<not> displayNone e \<and> \<not> visibilityHidden e
                         \<and> \<not> opacityZero e);
            supportsPlaybackRate = rateIsNumber e
        in hasSize \<and> hasSrc e \<and> isVisible \<and> supportsPlaybackRate)"

text \<open>\<open>[...new Set(videos)]\<close>: duplicates are dropped, the first occurrence stays.\<close>

definition uniqueVideos :: "elem list \<Rightarrow> elem list" where
  "uniqueVideos vs = rev (remdups (rev vs))"

definition detectPlatform :: "controller \<Rightarrow> platform" where
  "detectPlatform c = pagePlatform c"

definition newVideoState :: "controller \<Rightarrow> nat \<Rightarrow> elem \<Rightarrow> video_state" where
  "newVideoState c now v =
     \<lparr> originalRate = playbackRate (elems c v), isSpeedBoosted = False,
       platform = detectPlatform c, lastInteraction = now \<rparr>"

text \<open>
  \<open>updateTrackedVideos\<close>: entries whose key is not in the list are deleted, then every
  listed video without an entry gets one, appended as \<open>Map.set\<close> does. \<open>now\<close> is the
  reading of \<open>Date.now()\<close> during the call; the readings of one call of an operation
  are taken to be the same.
\<close>

definition trackNew :: "controller \<Rightarrow> nat \<Rightarrow> elem \<Rightarrow> (elem \<times> video_state) list
    \<Rightarrow> (elem \<times> video_state) list" where
  "trackNew c now v tr =
     (if map_of tr v = None then tr @ [(v, newVideoState c now v)] else tr)"

definition updateTrackedVideos :: "nat \<Rightarrow> elem list \<Rightarrow> controller \<Rightarrow> controller" where
  "updateTrackedVideos now videos c =
     c\<lparr>trackedVideos :=
         fold (trackNew c now) videos
           (filter (\<lambda>(v, st). v \<in> set videos) (trackedVideos c))\<rparr>"

definition validVideos :: "controller \<Rightarrow> elem list" where
  "validVideos c =
     filter (\<lambda>v. isValidVideo (elems c v))
       (uniqueVideos (filter (\<lambda>v. tagIsVideo (elems c v)) (platformQuery c) @ genericQuery c))"

definition detectVideos :: "nat \<Rightarrow> controller \<Rightarrow> elem list \<times> controller" where
  "detectVideos now c = (validVideos c, updateTrackedVideos now (validVideos c) c)"

section \<open>Selection of the active video\<close>

definition isPlaying :: "controller \<Rightarrow> elem \<Rightarrow> bool" where
  "isPlaying c v = (\<not> paused (elems c v) \<and> \<not> ended (elems c v))"

text \<open>
  The \<open>forEach\<close> loops of \<open>getMostRecentlyInteracted\<close> and \<open>getLargestVideo\<close>: the pair
  is (best so far, its value), starting at \<open>(null, 0)\<close>, replaced only by a strictly
  larger value.
\<close>

definition recentStep :: "(elem \<times> video_state) list \<Rightarrow> elem \<Rightarrow> elem option \<times> nat
    \<Rightarrow> elem option \<times> nat" where
  "recentStep tr v acc =
     (case map_of tr v of
        None \<Rightarrow> acc
      | Some st \<Rightarrow> if lastInteraction st > snd acc then (Some v, lastInteraction st) else acc)"

definition getMostRecentlyInteracted :: "controller \<Rightarrow> elem list \<Rightarrow> elem option" where
  "getMostRecentlyInteracted c videos =
     (case fst (fold (recentStep (trackedVideos c)) videos (None, 0)) of
        Some v \<Rightarrow> Some v
      | None \<Rightarrow> (case videos of [] \<Rightarrow> None | v # _ \<Rightarrow> Some v))"

definition area :: "controller \<Rightarrow> elem \<Rightarrow> real" where
  "area c v = rectWidth (elems c v) * rectHeight (elems c v)"

definition largestStep :: "controller \<Rightarrow> elem \<Rightarrow> elem option \<times> real \<Rightarrow> elem option \<times> real" where
  "largestStep c v acc = (if area c v > snd acc then (Some v, area c v) else acc)"

definition getLargestVideo :: "controller \<Rightarrow> elem list \<Rightarrow> elem option" where
  "getLargestVideo c videos = fst (fold (largestStep c) videos (None, 0))"

text \<open>
  An entry of the \<open>Map\<close> is an object that the source mutates through its reference
  (\<open>videoState.isSpeedBoosted = true\<close>); \<open>modifyState v f\<close> applies \<open>f\<close> to the entry
  of \<open>v\<close> and does nothing when there is none.
\<close>

definition modifyState :: "elem \<Rightarrow> (video_state \<Rightarrow> video_state) \<Rightarrow> (elem \<times> video_state) list
    \<Rightarrow> (elem \<times> video_state) list" where
  "modifyState a f tr = map (\<lambda>(v, st). if v = a then (v, f st) else (v, st)) tr"

definition touch :: "nat \<Rightarrow> elem \<Rightarrow> (elem \<times> video_state) list \<Rightarrow> (elem \<times> video_state) list" where
  "touch now a tr = modifyState a (\<lambda>st. st\<lparr>lastInteraction := now\<rparr>) tr"

text \<open>
  The choice among two or more candidates, lines 324 to 354 of the source, before the
  side effects.
\<close>

definition chooseActive :: "controller \<Rightarrow> elem list \<Rightarrow> elem option" where
  "chooseActive c videos =
     (let playingVideos = filter (isPlaying c) videos;
          a1 = (if length playingVideos = 1 then Some (hd playingVideos)
                else if length playingVideos > 1 then getMostRecentlyInteracted c playingVideos
                else None);
          a2 = (case a1 of
                  Some a \<Rightarrow> Some a
                | None \<Rightarrow> (case lastActiveVideo c of
                             Some l \<Rightarrow> if l \<in> set videos then Some l else None
                           | None \<Rightarrow> None));
          a3 = (case a2 of Some a \<Rightarrow> Some a | None \<Rightarrow> getLargestVideo c videos)
      in (case a3 of Some a \<Rightarrow> Some a | None \<Rightarrow> Some (hd videos)))"

definition getActiveVideo :: "nat \<Rightarrow> controller \<Rightarrow> elem option \<times> controller" where
  "getActiveVideo now c0 =
     (let (videos, c) = detectVideos now c0 in
      if length videos = 0 then (None, c\<lparr>lastActiveVideo := None\<rparr>)
      else if length videos = 1 then (Some (hd videos), c\<lparr>lastActiveVideo := Some (hd videos)\<rparr>)
      else
        (case chooseActive c videos of
           None \<Rightarrow> (None, c\<lparr>lastActiveVideo := None\<rparr>)
         | Some a \<Rightarrow>
             (Some a, c\<lparr>lastActiveVideo := Some a,
                        trackedVideos := touch now a (trackedVideos c)\<rparr>)))"

section \<open>Applying and restoring the speed\<close>

text \<open>
  The argument of \<open>applySpeedBoost\<close> is any JavaScript value. \<open>Undefined\<close> is an omitted
  or undefined argument, which takes the default \<open>2.0\<close> of the parameter; \<open>NonNumber\<close>
  is a value whose \<open>typeof\<close> is not \<open>"number"\<close>; the others are the numbers.
\<close>

datatype jsval = Undefined | NonNumber | NaN | PosInf | NegInf | Num real

definition typeofNumber :: "jsval \<Rightarrow> bool" where
  "typeofNumber x = (case x of Undefined \<Rightarrow> False | NonNumber \<Rightarrow> False | _ \<Rightarrow> True)"

text \<open>\<open>x <= 0\<close> and \<open>x > 16\<close> on numbers; every comparison with \<open>NaN\<close> is false.\<close>

definition leZero :: "jsval \<Rightarrow> bool" where
  "leZero x = (case x of Num r \<Rightarrow> r \<le> 0 | NegInf \<Rightarrow> True | _ \<Rightarrow> False)"

definition gtSixteen :: "jsval \<Rightarrow> bool" where
  "gtSixteen x = (case x of Num r \<Rightarrow> r > 16 | PosInf \<Rightarrow> True | _ \<Rightarrow> False)"

text \<open>
  The assignment \<open>video.playbackRate = x\<close>. \<open>None\<close> is a thrown exception: the
  attribute is a double of the host, which refuses a value that is not finite, and the
  element may refuse a finite rate (\<open>acceptsRate\<close>).
\<close>

definition setPlaybackRate :: "elem \<Rightarrow> jsval \<Rightarrow> controller \<Rightarrow> controller option" where
  "setPlaybackRate v x c =
     (case x of
        Num r \<Rightarrow>
          if acceptsRate (elems c v) r
          then Some (c\<lparr>elems := (elems c)(v := (elems c v)\<lparr>playbackRate := r\<rparr>)\<rparr>)
          else None
      | _ \<Rightarrow> None)"

text \<open>
  \<open>this.trackedVideos.get(activeVideo)\<close>, with the entry that the operation creates when
  there is none: \<open>dflt\<close> is the state it starts from.
\<close>

definition stateOrNew :: "elem \<Rightarrow> video_state \<Rightarrow> controller \<Rightarrow> video_state \<times> controller" where
  "stateOrNew v dflt c =
     (case map_of (trackedVideos c) v of
        Some st \<Rightarrow> (st, c)
      | None \<Rightarrow> (dflt, c\<lparr>trackedVideos := trackedVideos c @ [(v, dflt)]\<rparr>))"

definition applySpeedBoost :: "nat \<Rightarrow> jsval \<Rightarrow> controller \<Rightarrow> bool \<times> controller" where
  "applySpeedBoost now arg c0 =
     (let multiplier = (case arg of Undefined \<Rightarrow> Num 2 | _ \<Rightarrow> arg);
          (active, c1) = getActiveVideo now c0
      in case active of
           None \<Rightarrow> (False, c1)
         | Some v \<Rightarrow>
             let (videoState, c2) = stateOrNew v (newVideoState c1 now v) c1 in
             if isSpeedBoosted videoState then (True, c2)
             else if \<not> typeofNumber multiplier \<or> leZero multiplier \<or> gtSixteen multiplier
             then (False, c2)
             else
               let c3 = c2\<lparr>trackedVideos :=
                          modifyState v (\<lambda>st. st\<lparr>originalRate := playbackRate (elems c2 v)\<rparr>)
                            (trackedVideos c2)\<rparr>
               in case setPlaybackRate v multiplier c3 of
                    None \<Rightarrow> (False, c3)
                  | Some c4 \<Rightarrow>
                      (True, c4\<lparr>trackedVideos :=
                               modifyState v (\<lambda>st. st\<lparr>isSpeedBoosted := True\<rparr>)
                                 (trackedVideos c4)\<rparr>))"

definition defaultVideoState :: "controller \<Rightarrow> nat \<Rightarrow> video_state" where
  "defaultVideoState c now =
     \<lparr> originalRate = 1, isSpeedBoosted = False, platform = detectPlatform c,
       lastInteraction = now \<rparr>"

definition restoreOriginalSpeed :: "nat \<Rightarrow> controller \<Rightarrow> bool \<times> controller" where
  "restoreOriginalSpeed now c0 =
     (let (active, c1) = getActiveVideo now c0
      in case active of
           None \<Rightarrow> (False, c1)
         | Some v \<Rightarrow>
             let (videoState, c2) = stateOrNew v (defaultVideoState c1 now) c1 in
             if \<not> isSpeedBoosted videoState then (True, c2)
             else
               case setPlaybackRate v (Num (originalRate videoState)) c2 of
                 None \<Rightarrow> (False, c2)
               | Some c3 \<Rightarrow>
                   (True, c3\<lparr>trackedVideos :=
                            modifyState v (\<lambda>st. st\<lparr>isSpeedBoosted := False\<rparr>)
                              (trackedVideos c3)\<rparr>))"

section \<open>Indicator, timer and hotkey state\<close>

definition clearAutoHideTimer :: "controller \<Rightarrow> controller" where
  "clearAutoHideTimer c = c\<lparr>autoHideTimer := False\<rparr>"

text \<open>
  \<open>hideSpeedIndicator\<close> takes the first node with the indicator's id, clears the timer
  and puts the hiding class on the node; the node leaves the document in a later timer
  callback.
\<close>

definition hideSpeedIndicator :: "controller \<Rightarrow> controller" where
  "hideSpeedIndicator c =
     (case indicators c of
        [] \<Rightarrow> c
      | _ # rest \<Rightarrow> (clearAutoHideTimer c)\<lparr>indicators := True # rest\<rparr>)"

definition isSpeedIndicatorVisible :: "controller \<Rightarrow> bool" where
  "isSpeedIndicatorVisible c = (case indicators c of [] \<Rightarrow> False | hiding # _ \<Rightarrow> \<not> hiding)"

definition resetHotkeyState :: "controller \<Rightarrow> controller" where
  "resetHotkeyState c =
     c\<lparr>hotkeyState :=
         \<lparr> isPressed = False, currentKey = None,
           modifiers = \<lparr> ctrl = False, alt = False, shift = False, meta = False \<rparr>,
           preventMultipleActivations = False \<rparr>\<rparr>"

text \<open>The assignment \<open>state.isSpeedBoosted = false\<close> on one entry.\<close>

definition unboost :: "video_state \<Rightarrow> video_state" where
  "unboost st = st\<lparr>isSpeedBoosted := False\<rparr>"

text \<open>
  \<open>resetAllSpeeds\<close>: one step of the loop over the entries of the \<open>Map\<close>. A throwing
  assignment is caught inside the loop, the entry stays boosted and the loop goes on.
\<close>

definition resetStep :: "elem \<Rightarrow> nat \<times> controller \<Rightarrow> nat \<times> controller" where
  "resetStep v acc =
     (let (resetCount, c) = acc in
      case map_of (trackedVideos c) v of
        None \<Rightarrow> acc
      | Some st \<Rightarrow>
          if isSpeedBoosted st then
            (case setPlaybackRate v (Num (originalRate st)) c of
               None \<Rightarrow> acc
             | Some c' \<Rightarrow>
                 (resetCount + 1,
                  c'\<lparr>trackedVideos :=
                       modifyState v (\<lambda>st. st\<lparr>isSpeedBoosted := False\<rparr>) (trackedVideos c')\<rparr>))
          else acc)"

definition resetAllSpeeds :: "controller \<Rightarrow> nat \<times> controller" where
  "resetAllSpeeds c =
     (let (resetCount, c1) = fold resetStep (map fst (trackedVideos c)) (0, c)
      in (resetCount, hideSpeedIndicator c1))"

definition deactivateSpeedBoost :: "nat \<Rightarrow> controller \<Rightarrow> controller" where
  "deactivateSpeedBoost now c =
     (if \<not> isPressed (hotkeyState c) then c
      else
        let (success, c1) = restoreOriginalSpeed now c;
            c2 = (if success then hideSpeedIndicator c1 else c1)
        in resetHotkeyState c2)"

section \<open>Pruning detached videos\<close>

text \<open>
  \<open>cleanupStaleElements\<close>: the loop over the entries deletes every entry whose element
  is no longer in the document and clears \<open>lastActiveVideo\<close> when it is that element;
  then all indicator nodes but the last and all style nodes but the first are removed.
  The result is the count of removed things and the new controller.
\<close>

definition cleanStep :: "elem \<times> video_state \<Rightarrow> nat \<times> controller \<Rightarrow> nat \<times> controller" where
  "cleanStep entry acc =
     (let (cleanedCount, c) = acc; video = fst entry in
      if \<not> attached (elems c video) then
        (cleanedCount + 1,
         c\<lparr>trackedVideos := filter (\<lambda>(v, st). v \<noteq> video) (trackedVideos c),
           lastActiveVideo :=
             (if lastActiveVideo c = Some video then None else lastActiveVideo c)\<rparr>)
      else acc)"

definition cleanupStaleElements :: "controller \<Rightarrow> nat \<times> controller" where
  "cleanupStaleElements c =
     (let (n1, c1) = fold cleanStep (trackedVideos c) (0, c);
          (n2, c2) = (if length (indicators c1) > 1
                      then (n1 + (length (indicators c1) - 1),
                            c1\<lparr>indicators := [last (indicators c1)]\<rparr>)
                      else (n1, c1));
          (n3, c3) = (if styleElements c2 > 1
                      then (n2 + (styleElements c2 - 1), c2\<lparr>styleElements := 1\<rparr>)
                      else (n2, c2))
      in (n3, c3))"

section \<open>Losing focus and visibility\<close>

definition handleWindowBlur :: "nat \<Rightarrow> controller \<Rightarrow> controller" where
  "handleWindowBlur now c =
     (let c1 = (if isPressed (hotkeyState c) then deactivateSpeedBoost now c
                else hideSpeedIndicator c);
          c2 = snd (resetAllSpeeds c1)
      in clearAutoHideTimer c2)"

definition handleVisibilityChange :: "nat \<Rightarrow> controller \<Rightarrow> controller" where
  "handleVisibilityChange now c =
     (if docHidden c then
        let c1 = (if isPressed (hotkeyState c) then deactivateSpeedBoost now c else c);
            c2 = snd (resetAllSpeeds c1);
            c3 = hideSpeedIndicator c2
        in clearAutoHideTimer c3
      else
        let c1 = resetHotkeyState c;
            c2 = snd (detectVideos now c1)
        in snd (cleanupStaleElements c2))"

section \<open>Hotkey matching\<close>









section \<open>Hotkey validation\<close>




record validation_result =
  success :: bool
  warnings :: "string list"
  errors :: "string list"
  conflicts :: "string list"


















section \<open>The selection policy and well-formed bindings in the words of the specification\<close>

text \<open>
  \<open>firstMax f xs\<close> is the first element of \<open>xs\<close> whose value under \<open>f\<close> is the
  largest of the list: "the one with the most recent timestamp (the largest area), ties
  broken by first-encountered order".
\<close>

definition firstMax :: "('a \<Rightarrow> 'b::linorder) \<Rightarrow> 'a list \<Rightarrow> 'a option" where
  "firstMax f xs = find (\<lambda>x. \<forall>y \<in> set xs. f y \<le> f x) xs"

definition lastInteractionOf :: "controller \<Rightarrow> elem \<Rightarrow> nat" where
  "lastInteractionOf c v =
     (case map_of (trackedVideos c) v of Some st \<Rightarrow> lastInteraction st | None \<Rightarrow> 0)"

text \<open>
  The five levels of the specification's \<open>selectActive\<close>, first match wins:
  the only playing candidate; among several playing ones the most recently interacted;
  the previously selected element if it is still a candidate; the largest area; the first
  candidate.
\<close>

definition selectActive_spec :: "controller \<Rightarrow> elem list \<Rightarrow> elem option" where
  "selectActive_spec c candidates =
     (let playing = filter (isPlaying c) candidates in
      if length playing = 1 then Some (hd playing)
      else if length playing > 1 then firstMax (lastInteractionOf c) playing
      else
        (case (case lastActiveVideo c of
                 Some l \<Rightarrow> if l \<in> set candidates then Some l else None
               | None \<Rightarrow> None) of
           Some l \<Rightarrow> Some l
         | None \<Rightarrow>
             (case firstMax (area c) candidates of
                Some v \<Rightarrow> Some v
              | None \<Rightarrow> Some (hd candidates))))"


section \<open>Example pages\<close>

definition videoElement :: "real \<Rightarrow> real \<Rightarrow> bool \<Rightarrow> real \<Rightarrow> element" where
  "videoElement w h playing rate =
     \<lparr> tagIsVideo = True, rectWidth = w, rectHeight = h, hasSrc = True,
       hasOffsetParent = True, displayNone = False, visibilityHidden = False,
       opacityZero = False, rateIsNumber = True, playbackRate = rate,
       paused = (\<not> playing), ended = False, attached = True, acceptsRate = (\<lambda>r. True) \<rparr>"

definition noVideo :: element where
  "noVideo = (videoElement 0 0 False 1)\<lparr>tagIsVideo := False, attached := False\<rparr>"

definition idleHotkey :: hotkey_state where
  "idleHotkey =
     \<lparr> isPressed = False, currentKey = None,
       modifiers = \<lparr> ctrl = False, alt = False, shift = False, meta = False \<rparr>,
       preventMultipleActivations = False \<rparr>"

definition heldHotkey :: hotkey_state where
  "heldHotkey = idleHotkey\<lparr>isPressed := True, currentKey := Some ''Space'',
                            preventMultipleActivations := True\<rparr>"

definition plainPage :: "(elem \<Rightarrow> element) \<Rightarrow> elem list \<Rightarrow> controller" where
  "plainPage els query =
     \<lparr> elems = els, platformQuery = [], genericQuery = query, pagePlatform = Generic,
       docHidden = False, indicators = [], styleElements = 1, settings = None,
       trackedVideos = [], lastActiveVideo = None, hotkeyState = idleHotkey,
       autoHideTimer = False \<rparr>"

definition tracked :: "real \<Rightarrow> bool \<Rightarrow> nat \<Rightarrow> video_state" where
  "tracked orig boosted t =
     \<lparr> originalRate = orig, isSpeedBoosted = boosted, platform = Generic,
       lastInteraction = t \<rparr>"

text \<open>Video 0 is paused and 320 by 240, video 1 is playing and 100 by 100.\<close>

definition twoVideos :: controller where
  "twoVideos =
     plainPage ((\<lambda>v. noVideo)(0 := videoElement 320 240 False 1,
                              1 := videoElement 100 100 True 1)) [0, 1]"

text \<open>One playing video at rate 1, tracked and not boosted.\<close>

definition trackedVideo :: controller where
  "trackedVideo =
     (plainPage ((\<lambda>v. noVideo)(0 := videoElement 640 480 True 1)) [0])
       \<lparr>trackedVideos := [(0, tracked 1 False 5)], lastActiveVideo := Some 0\<rparr>"

text \<open>The same video while the hotkey is held: boosted from 1 to 2.\<close>

definition boostedVideo :: controller where
  "boostedVideo =
     (plainPage ((\<lambda>v. noVideo)(0 := videoElement 640 480 True 2)) [0])
       \<lparr>trackedVideos := [(0, tracked 1 True 5)], lastActiveVideo := Some 0,
         hotkeyState := heldHotkey, indicators := [False]\<rparr>"

text \<open>
  The boosted video after the page has hidden it with \<open>display: none\<close>; it is still in
  the document and the hotkey is still held.
\<close>

definition hiddenBoostedVideo :: controller where
  "hiddenBoostedVideo =
     boostedVideo\<lparr>elems := (\<lambda>v. noVideo)(0 := (videoElement 640 480 True 2)\<lparr>displayNone := True\<rparr>)\<rparr>"

text \<open>Three tracked videos; video 2 has left the document and was the last active one.\<close>

definition threeTracked :: controller where
  "threeTracked =
     (plainPage ((\<lambda>v. noVideo)(0 := videoElement 640 480 True 1,
                               1 := videoElement 320 240 False 1,
                               2 := (videoElement 320 240 False 1)\<lparr>attached := False\<rparr>))
        [0, 1])
       \<lparr>trackedVideos := [(0, tracked 1 False 5), (1, tracked 1 False 6), (2, tracked 1 False 7)],
         lastActiveVideo := Some 2\<rparr>"

text \<open>A page without videos on which video 7 was selected before.\<close>

definition emptyPage :: controller where
  "emptyPage = (plainPage (\<lambda>v. noVideo) [])\<lparr>lastActiveVideo := Some 7\<rparr>"



section \<open>Facts about the tracked map\<close>

lemma map_of_modifyState:
  "map_of (modifyState a f tr) v = (if v = a then map_option f (map_of tr v) else map_of tr v)"
  by (induction tr) (auto simp: modifyState_def)


lemma map_of_filter_keys:
  "map_of (filter (\<lambda>(k, st). P k) tr) v = (if P v then map_of tr v else None)"
  by (induction tr) auto

lemma trackNew_fresh:
  "map_of tr v = None \<Longrightarrow> trackNew c now v tr = tr @ [(v, newVideoState c now v)]"
  by (simp add: trackNew_def)

lemma trackNew_known:
  "map_of tr v = Some st \<Longrightarrow> trackNew c now v tr = tr"
  by (simp add: trackNew_def)

lemma map_of_fold_trackNew:
  "map_of (fold (trackNew c now) vs tr) v =
     (case map_of tr v of
        Some st \<Rightarrow> Some st
      | None \<Rightarrow> if v \<in> set vs then Some (newVideoState c now v) else None)"
proof (induction vs arbitrary: tr)
  case Nil
  show ?case by (simp split: option.splits)
next
  case (Cons w ws)
  show ?case
  proof (cases "map_of tr w")
    case None
    then show ?thesis
      by (simp add: Cons.IH trackNew_fresh map_add_def split: option.splits)
  next
    case (Some st)
    then show ?thesis
      by (auto simp add: Cons.IH trackNew_known split: option.splits)
  qed
qed

lemma map_of_updateTrackedVideos:
  "map_of (trackedVideos (updateTrackedVideos now vs c)) v =
     (if v \<in> set vs
      then (case map_of (trackedVideos c) v of
              Some st \<Rightarrow> Some st
            | None \<Rightarrow> Some (newVideoState c now v))
      else None)"
  by (simp add: updateTrackedVideos_def map_of_fold_trackNew map_of_filter_keys
      split: option.splits)

lemma updateTrackedVideos_other [simp]:
  "elems (updateTrackedVideos now vs c) = elems c"
  "platformQuery (updateTrackedVideos now vs c) = platformQuery c"
  "genericQuery (updateTrackedVideos now vs c) = genericQuery c"
  "lastActiveVideo (updateTrackedVideos now vs c) = lastActiveVideo c"
  "hotkeyState (updateTrackedVideos now vs c) = hotkeyState c"
  "indicators (updateTrackedVideos now vs c) = indicators c"
  "autoHideTimer (updateTrackedVideos now vs c) = autoHideTimer c"
  "pagePlatform (updateTrackedVideos now vs c) = pagePlatform c"
  by (simp_all add: updateTrackedVideos_def)

lemma fold_trackNew_id:
  "\<forall>v \<in> set vs. map_of tr v \<noteq> None \<Longrightarrow> fold (trackNew c now) vs tr = tr"
proof (induction vs arbitrary: tr)
  case Nil
  show ?case by simp
next
  case (Cons w ws)
  then obtain st where "map_of tr w = Some st" by auto
  then show ?case using Cons by (simp add: trackNew_known)
qed

lemma updateTrackedVideos_id:
  assumes "fst ` set (trackedVideos c) = set vs"
  shows "updateTrackedVideos now vs c = c"
proof -
  have f: "filter (\<lambda>(v, st). v \<in> set vs) (trackedVideos c) = trackedVideos c"
    using assms by (force simp: filter_id_conv)
  have "\<forall>v \<in> set vs. map_of (trackedVideos c) v \<noteq> None"
    using assms by (metis map_of_eq_None_iff)
  then show ?thesis
    by (simp add: updateTrackedVideos_def f fold_trackNew_id)
qed



section \<open>Pruning detached videos: claim C6\<close>

lemma cleanStep_simp:
  "cleanStep e (n, c) =
     (if \<not> attached (elems c (fst e)) then
        (n + 1,
         c\<lparr>trackedVideos := filter (\<lambda>(v, st). v \<noteq> fst e) (trackedVideos c),
           lastActiveVideo :=
             (if lastActiveVideo c = Some (fst e) then None else lastActiveVideo c)\<rparr>)
      else (n, c))"
  by (simp add: cleanStep_def Let_def)

lemma cleanStep_fold_elems:
  "elems (snd (fold cleanStep es (n, c))) = elems c"
  by (induction es arbitrary: n c) (simp_all add: cleanStep_simp)

lemma cleanStep_fold_count:
  "fst (fold cleanStep es (n, c)) = n + length (filter (\<lambda>e. \<not> attached (elems c (fst e))) es)"
proof (induction es arbitrary: n c)
  case Nil
  show ?case by simp
next
  case (Cons e es)
  show ?case
  proof (cases "attached (elems c (fst e))")
    case True
    then show ?thesis using Cons.IH [of n c] by (simp add: cleanStep_simp)
  next
    case False
    then show ?thesis
      using Cons.IH [of "n + 1" "c\<lparr>trackedVideos := filter (\<lambda>(v, st). v \<noteq> fst e) (trackedVideos c),
           lastActiveVideo := (if lastActiveVideo c = Some (fst e) then None else lastActiveVideo c)\<rparr>"]
      by (simp add: cleanStep_simp)
  qed
qed

lemma cleanStep_fold_tracked:
  "trackedVideos (snd (fold cleanStep es (n, c))) =
     filter (\<lambda>e. \<not> (fst e \<in> fst ` set es \<and> \<not> attached (elems c (fst e)))) (trackedVideos c)"
proof (induction es arbitrary: n c)
  case Nil
  show ?case by simp
next
  case (Cons e es)
  show ?case
  proof (cases "attached (elems c (fst e))")
    case True
    have "\<And>x. (\<not> ((x = fst e \<or> x \<in> fst ` set es) \<and> \<not> attached (elems c x)))
            = (\<not> (x \<in> fst ` set es \<and> \<not> attached (elems c x)))"
      using True by auto
    then show ?thesis using True Cons.IH [of n c] by (simp add: cleanStep_simp)
  next
    case False
    let ?c = "c\<lparr>trackedVideos := filter (\<lambda>(v, st). v \<noteq> fst e) (trackedVideos c),
           lastActiveVideo := (if lastActiveVideo c = Some (fst e) then None else lastActiveVideo c)\<rparr>"
    have "filter (\<lambda>e'. \<not> (fst e' \<in> fst ` set es \<and> \<not> attached (elems c (fst e'))))
            (filter (\<lambda>(v, st). v \<noteq> fst e) (trackedVideos c))
          = filter (\<lambda>e'. \<not> (fst e' \<in> fst ` set (e # es) \<and> \<not> attached (elems c (fst e'))))
            (trackedVideos c)"
      using False by (auto intro!: filter_cong simp: case_prod_beta)
    then show ?thesis
      using False Cons.IH [of "n + 1" ?c] by (simp add: cleanStep_simp)
  qed
qed

lemma cleanStep_fold_lastActive:
  "lastActiveVideo (snd (fold cleanStep es (n, c))) =
     (if \<exists>v. lastActiveVideo c = Some v \<and> v \<in> fst ` set es \<and> \<not> attached (elems c v)
      then None else lastActiveVideo c)"
proof (induction es arbitrary: n c)
  case Nil
  show ?case by simp
next
  case (Cons e es)
  show ?case
  proof (cases "attached (elems c (fst e))")
    case True
    then show ?thesis using Cons.IH [of n c] by (auto simp add: cleanStep_simp)
  next
    case False
    let ?c = "c\<lparr>trackedVideos := filter (\<lambda>(v, st). v \<noteq> fst e) (trackedVideos c),
           lastActiveVideo := (if lastActiveVideo c = Some (fst e) then None else lastActiveVideo c)\<rparr>"
    show ?thesis
      using False Cons.IH [of "n + 1" ?c] by (auto simp add: cleanStep_simp)
  qed
qed

lemma cleanup_tracked:
  "trackedVideos (snd (cleanupStaleElements c)) =
     filter (\<lambda>e. attached (elems c (fst e))) (trackedVideos c)"
proof -
  have "trackedVideos (snd (cleanupStaleElements c))
        = trackedVideos (snd (fold cleanStep (trackedVideos c) (0, c)))"
    by (simp add: cleanupStaleElements_def Let_def split: prod.splits)
  also have "\<dots> = filter (\<lambda>e. attached (elems c (fst e))) (trackedVideos c)"
    unfolding cleanStep_fold_tracked by (rule filter_cong) auto
  finally show ?thesis .
qed

lemma cleanup_lastActive:
  "lastActiveVideo (snd (cleanupStaleElements c)) =
     (if \<exists>v. lastActiveVideo c = Some v \<and> v \<in> fst ` set (trackedVideos c)
              \<and> \<not> attached (elems c v)
      then None else lastActiveVideo c)"
proof -
  have "lastActiveVideo (snd (cleanupStaleElements c))
        = lastActiveVideo (snd (fold cleanStep (trackedVideos c) (0, c)))"
    by (simp add: cleanupStaleElements_def Let_def split: prod.splits)
  then show ?thesis by (simp only: cleanStep_fold_lastActive)
qed

text \<open>
  Claim C6. For a tracked map of \<open>M\<close> entries of which \<open>N\<close> belong to elements
  that are no longer in the document, \<open>cleanupStaleElements\<close> removes exactly those
  \<open>N\<close> entries and keeps the others in their order, so \<open>M - N\<close> entries remain; the
  remembered last-active element is cleared when it is one of the removed elements and is
  left as it was otherwise. The function is total: no use of it fails.
\<close>

theorem cleanupStaleElements_prunes_detached:
  fixes c :: controller
  defines "detached \<equiv> (\<lambda>e. \<not> attached (elems c (fst e)))"
  defines "c' \<equiv> snd (cleanupStaleElements c)"
  shows "trackedVideos c' = filter (\<lambda>e. \<not> detached e) (trackedVideos c)
       \<and> length (trackedVideos c') + length (filter detached (trackedVideos c))
           = length (trackedVideos c)
       \<and> length (trackedVideos c')
           = length (trackedVideos c) - length (filter detached (trackedVideos c))
       \<and> lastActiveVideo c' =
           (if \<exists>e \<in> set (filter detached (trackedVideos c)). lastActiveVideo c = Some (fst e)
            then None else lastActiveVideo c)"
proof -
  have t: "trackedVideos c' = filter (\<lambda>e. \<not> detached e) (trackedVideos c)"
    by (simp add: c'_def detached_def cleanup_tracked)
  have s: "length (filter (\<lambda>e. \<not> detached e) (trackedVideos c))
             + length (filter detached (trackedVideos c)) = length (trackedVideos c)"
    using sum_length_filter_compl [of detached "trackedVideos c"] by simp
  have l: "lastActiveVideo c' =
           (if \<exists>e \<in> set (filter detached (trackedVideos c)). lastActiveVideo c = Some (fst e)
            then None else lastActiveVideo c)"
    unfolding c'_def cleanup_lastActive detached_def by force
  show ?thesis using t s l by simp
qed

section \<open>The loops of the selection compute the first maximum\<close>

lemma scan_find:
  fixes k :: "'a \<Rightarrow> 'b::linorder"
  shows "fst (fold (\<lambda>v acc. if k v > snd acc then (Some v, k v) else acc) xs (mr, lt)) =
     (case find (\<lambda>x. k x > lt \<and> (\<forall>y\<in>set xs. k y \<le> k x)) xs of
        Some x \<Rightarrow> Some x
      | None \<Rightarrow> mr)"
proof (induction xs arbitrary: mr lt)
  case Nil
  show ?case by simp
next
  case (Cons x xs)
  let ?step = "\<lambda>v acc. if k v > snd acc then (Some v, k v) else acc"
  let ?P = "\<lambda>z. k z > lt \<and> (\<forall>y\<in>set (x # xs). k y \<le> k z)"
  show ?case
  proof (cases "k x > lt")
    case gt: True
    have step: "fold ?step (x # xs) (mr, lt) = fold ?step xs (Some x, k x)"
      using gt by simp
    let ?Q = "\<lambda>z. k z > k x \<and> (\<forall>y\<in>set xs. k y \<le> k z)"
    have ih: "fst (fold ?step xs (Some x, k x)) =
                (case find ?Q xs of Some z \<Rightarrow> Some z | None \<Rightarrow> Some x)"
      by (rule Cons.IH)
    show ?thesis
    proof (cases "\<forall>y\<in>set xs. k y \<le> k x")
      case True
      then have "find ?Q xs = None"
        by (auto simp: find_None_iff)
      moreover have "find ?P (x # xs) = Some x"
        using gt True by simp
      ultimately show ?thesis
        unfolding step ih by simp
    next
      case False
      then obtain y where y: "y \<in> set xs" "k x < k y" by (auto simp: not_le)
      have notx: "\<not> ?P x" using y by (auto simp: not_le)
      have "find ?P xs = find ?Q xs"
      proof (rule find_cong [OF refl])
        fix z assume "z \<in> set xs"
        show "?P z = ?Q z"
        proof
          assume pz: "?P z"
          then have "k y \<le> k z" using y by simp
          then have "k x < k z" using y by (metis less_le_trans)
          then show "?Q z" using pz by simp
        next
          assume qz: "?Q z"
          then have "lt < k z" using gt by (metis less_trans)
          moreover have "k x \<le> k z" using qz by (simp add: less_imp_le)
          ultimately show "?P z" using qz by simp
        qed
      qed
      moreover have "find ?P (x # xs) = find ?P xs"
        by (simp only: find.simps notx if_False)
      moreover have "find ?Q xs \<noteq> None"
      proof -
        have "finite (k ` set xs)" "k ` set xs \<noteq> {}" using y by auto
        then have "Max (k ` set xs) \<in> k ` set xs" by (rule Max_in)
        then obtain z where z: "z \<in> set xs" "k z = Max (k ` set xs)" by auto
        have mx: "\<forall>w\<in>set xs. k w \<le> k z" using z by simp
        then have "k x < k z" using y by (metis less_le_trans)
        then have "?Q z" using mx by simp
        then show ?thesis using z(1) unfolding find_None_iff by blast
      qed
      ultimately show ?thesis
        unfolding step ih by (auto split: option.splits)
    qed
  next
    case le: False
    have step: "fold ?step (x # xs) (mr, lt) = fold ?step xs (mr, lt)"
      using le by simp
    let ?R = "\<lambda>z. k z > lt \<and> (\<forall>y\<in>set xs. k y \<le> k z)"
    have ih: "fst (fold ?step xs (mr, lt)) =
                (case find ?R xs of Some z \<Rightarrow> Some z | None \<Rightarrow> mr)"
      by (rule Cons.IH)
    have notx: "\<not> ?P x" using le by simp
    have "find ?P xs = find ?R xs"
    proof (rule find_cong [OF refl])
      fix z assume "z \<in> set xs"
      show "?P z = ?R z" using le by auto
    qed
    moreover have "find ?P (x # xs) = find ?P xs"
      by (simp only: find.simps notx if_False)
    ultimately show ?thesis unfolding step ih by simp
  qed
qed

lemma firstMax_exists:
  fixes k :: "'a \<Rightarrow> 'b::linorder"
  assumes "xs \<noteq> []"
  shows "\<exists>x. firstMax k xs = Some x"
proof -
  have "finite (k ` set xs)" "k ` set xs \<noteq> {}" using assms by auto
  then have "Max (k ` set xs) \<in> k ` set xs" by (rule Max_in)
  then obtain z where z: "z \<in> set xs" "k z = Max (k ` set xs)" by auto
  have "\<forall>w\<in>set xs. k w \<le> k z" using z by simp
  then have "find (\<lambda>x. \<forall>y \<in> set xs. k y \<le> k x) xs \<noteq> None"
    using z(1) unfolding find_None_iff by blast
  then show ?thesis by (auto simp: firstMax_def)
qed

lemma recentStep_eq:
  "recentStep (trackedVideos c) =
     (\<lambda>v acc. if lastInteractionOf c v > snd acc then (Some v, lastInteractionOf c v) else acc)"
  by (rule ext, rule ext) (simp add: recentStep_def lastInteractionOf_def split: option.splits)

lemma largestStep_eq:
  "largestStep c = (\<lambda>v acc. if area c v > snd acc then (Some v, area c v) else acc)"
  by (rule ext, rule ext) (simp add: largestStep_def)

lemma getMostRecentlyInteracted_firstMax:
  assumes "ps \<noteq> []"
  shows "getMostRecentlyInteracted c ps = firstMax (lastInteractionOf c) ps"
proof -
  let ?k = "lastInteractionOf c"
  let ?P = "\<lambda>x. ?k x > 0 \<and> (\<forall>y\<in>set ps. ?k y \<le> ?k x)"
  have scan: "fst (fold (recentStep (trackedVideos c)) ps (None, 0)) = find ?P ps"
    unfolding recentStep_eq scan_find by (simp split: option.splits)
  obtain p rest where ps: "ps = p # rest" using assms by (cases ps) auto
  show ?thesis
  proof (cases "\<exists>x\<in>set ps. ?k x > 0")
    case True
    then obtain x where x: "x \<in> set ps" "?k x > 0" by auto
    have eq: "find ?P ps = find (\<lambda>x. \<forall>y \<in> set ps. ?k y \<le> ?k x) ps"
    proof (rule find_cong [OF refl])
      fix z assume "z \<in> set ps"
      show "?P z = (\<forall>y \<in> set ps. ?k y \<le> ?k z)"
        using x by (metis le_zero_eq not_gr_zero)
    qed
    obtain m where m: "firstMax ?k ps = Some m" using firstMax_exists [OF assms] by blast
    show ?thesis
      unfolding getMostRecentlyInteracted_def scan eq
      using m by (simp add: firstMax_def)
  next
    case False
    then have zero: "\<forall>x\<in>set ps. ?k x = 0" by simp
    then have "find ?P ps = None" by (auto simp: find_None_iff)
    moreover have "firstMax ?k ps = Some p"
      using zero by (simp add: firstMax_def ps)
    ultimately show ?thesis
      unfolding getMostRecentlyInteracted_def scan by (simp add: ps)
  qed
qed

lemma getLargestVideo_firstMax:
  assumes "\<forall>v\<in>set vs. area c v > 0"
  shows "getLargestVideo c vs = firstMax (area c) vs"
proof -
  let ?P = "\<lambda>x. area c x > 0 \<and> (\<forall>y\<in>set vs. area c y \<le> area c x)"
  have "fst (fold (largestStep c) vs (None, 0)) = find ?P vs"
    unfolding largestStep_eq scan_find by (simp split: option.splits)
  also have "\<dots> = find (\<lambda>x. \<forall>y\<in>set vs. area c y \<le> area c x) vs"
    by (rule find_cong [OF refl]) (use assms in auto)
  finally show ?thesis by (simp add: getLargestVideo_def firstMax_def)
qed

lemma chooseActive_spec:
  assumes "\<forall>v\<in>set vs. area c v > 0"
  shows "chooseActive c vs = selectActive_spec c vs"
proof -
  let ?ps = "filter (isPlaying c) vs"
  have p: "length ?ps > 1 \<Longrightarrow> getMostRecentlyInteracted c ?ps = firstMax (lastInteractionOf c) ?ps"
    by (rule getMostRecentlyInteracted_firstMax) auto
  have "length ?ps > 1 \<Longrightarrow> \<exists>x. firstMax (lastInteractionOf c) ?ps = Some x"
    by (rule firstMax_exists) auto
  then show ?thesis
    unfolding chooseActive_def selectActive_spec_def Let_def getLargestVideo_firstMax [OF assms]
    using p by (auto split: option.splits)
qed

section \<open>Selection of the active video: claims C1, C8 and C10\<close>



lemma validVideos_valid: "v \<in> set (validVideos c) \<Longrightarrow> isValidVideo (elems c v)"
  by (simp add: validVideos_def)

lemma valid_area_pos:
  assumes "v \<in> set (validVideos c)" and "elems c' = elems c"
  shows "0 < area c' v"
proof -
  have "isValidVideo (elems c v)" using assms(1) by (rule validVideos_valid)
  then have "0 < rectWidth (elems c v)" "0 < rectHeight (elems c v)"
    by (auto simp: isValidVideo_def Let_def split: if_splits)
  then show ?thesis using assms(2) by (simp add: area_def)
qed

lemma firstMax_in: "firstMax k xs = Some x \<Longrightarrow> x \<in> set xs"
  by (auto simp: firstMax_def find_Some_iff)

lemma hd_filter_in: "filter P xs \<noteq> [] \<Longrightarrow> hd (filter P xs) \<in> set xs"
  by (metis filter_is_subset hd_in_set subsetD)

lemma selectActive_spec_in:
  assumes "vs \<noteq> []" and "selectActive_spec c vs = Some a"
  shows "a \<in> set vs"
proof -
  have h: "hd vs \<in> set vs" using assms(1) by simp
  have p1: "length (filter (isPlaying c) vs) = 1 \<Longrightarrow> hd (filter (isPlaying c) vs) \<in> set vs"
    by (rule hd_filter_in) auto
  have p2: "firstMax (lastInteractionOf c) (filter (isPlaying c) vs) = Some a \<Longrightarrow> a \<in> set vs"
    by (drule firstMax_in) simp
  have p3: "firstMax (area c) vs = Some a \<Longrightarrow> a \<in> set vs"
    by (rule firstMax_in)
  show ?thesis
    using assms(2) h p1 p2 p3
    unfolding selectActive_spec_def Let_def
    by (auto split: if_splits option.splits)
qed


lemma getActiveVideo_unfold:
  "getActiveVideo now c =
     (let vs = validVideos c; cD = updateTrackedVideos now vs c in
      if vs = [] then (None, cD\<lparr>lastActiveVideo := None\<rparr>)
      else if length vs = 1 then (Some (hd vs), cD\<lparr>lastActiveVideo := Some (hd vs)\<rparr>)
      else
        (case selectActive_spec cD vs of
           None \<Rightarrow> (None, cD\<lparr>lastActiveVideo := None\<rparr>)
         | Some a \<Rightarrow>
             (Some a, cD\<lparr>lastActiveVideo := Some a,
                         trackedVideos := touch now a (trackedVideos cD)\<rparr>)))"
proof -
  have "chooseActive (updateTrackedVideos now (validVideos c) c) (validVideos c)
        = selectActive_spec (updateTrackedVideos now (validVideos c) c) (validVideos c)"
    by (rule chooseActive_spec) (simp add: valid_area_pos)
  then show ?thesis
    by (simp add: getActiveVideo_def detectVideos_def Let_def)
qed

lemma getActiveVideo_elems [simp]: "elems (snd (getActiveVideo now c)) = elems c"
  by (simp add: getActiveVideo_unfold Let_def split: option.splits)

lemma getActiveVideo_queries [simp]:
  "platformQuery (snd (getActiveVideo now c)) = platformQuery c"
  "genericQuery (snd (getActiveVideo now c)) = genericQuery c"
  "hotkeyState (snd (getActiveVideo now c)) = hotkeyState c"
  "indicators (snd (getActiveVideo now c)) = indicators c"
  "autoHideTimer (snd (getActiveVideo now c)) = autoHideTimer c"
  "pagePlatform (snd (getActiveVideo now c)) = pagePlatform c"
  by (simp_all add: getActiveVideo_unfold Let_def split: option.splits)

lemma getActiveVideo_in_candidates:
  assumes "fst (getActiveVideo now c) = Some v"
  shows "v \<in> set (validVideos c)"
proof (cases "length (validVideos c) \<le> 1")
  case True
  then show ?thesis using assms
    by (cases "validVideos c") (auto simp: getActiveVideo_unfold Let_def split: if_splits)
next
  case False
  then have ne: "validVideos c \<noteq> []" by auto
  show ?thesis
    using assms False selectActive_spec_in [OF ne]
    by (auto simp: getActiveVideo_unfold Let_def split: if_splits option.splits)
qed

lemma getActiveVideo_lastActive:
  "lastActiveVideo (snd (getActiveVideo now c)) = fst (getActiveVideo now c)"
  by (simp add: getActiveVideo_unfold Let_def split: option.splits)


text \<open>
  Claim C8, as amended. Whenever \<open>getActiveVideo\<close> returns a video it records
  the video as the last active one. With two or more valid candidates it also sets the
  video's tracked \<open>lastInteraction\<close> to the current time. With exactly one valid
  candidate the function returns early: the tracked entry of the video is the one
  detection left, an entry that existed before keeps its timestamp.
\<close>

theorem getActiveVideo_records_selection:
  assumes "fst (getActiveVideo now c) = Some v"
  shows "lastActiveVideo (snd (getActiveVideo now c)) = Some v
       \<and> (2 \<le> length (validVideos c) \<longrightarrow>
            (\<exists>st. map_of (trackedVideos (snd (getActiveVideo now c))) v = Some st
                  \<and> lastInteraction st = now))
       \<and> (length (validVideos c) = 1 \<longrightarrow>
            map_of (trackedVideos (snd (getActiveVideo now c))) v
              = (case map_of (trackedVideos c) v of
                   Some st \<Rightarrow> Some st
                 | None \<Rightarrow> Some (newVideoState c now v)))"
proof -
  have v: "v \<in> set (validVideos c)" using assms by (rule getActiveVideo_in_candidates)
  have l: "lastActiveVideo (snd (getActiveVideo now c)) = Some v"
    using assms by (simp add: getActiveVideo_lastActive)
  have two: "\<exists>st. map_of (trackedVideos (snd (getActiveVideo now c))) v = Some st
                  \<and> lastInteraction st = now" if "2 \<le> length (validVideos c)"
  proof -
    have "map_of (trackedVideos (updateTrackedVideos now (validVideos c) c)) v \<noteq> None"
      using v by (simp add: map_of_updateTrackedVideos split: option.splits)
    then show ?thesis
      using assms that
      by (auto simp: getActiveVideo_unfold Let_def touch_def map_of_modifyState
          split: option.splits if_splits)
  qed
  have one: "map_of (trackedVideos (snd (getActiveVideo now c))) v
              = (case map_of (trackedVideos c) v of
                   Some st \<Rightarrow> Some st
                 | None \<Rightarrow> Some (newVideoState c now v))" if "length (validVideos c) = 1"
    using that v by (auto simp: getActiveVideo_unfold Let_def map_of_updateTrackedVideos)
  show ?thesis using l two one by blast
qed

text \<open>
  Claim C10. When detection finds no valid candidate, \<open>getActiveVideo\<close> returns
  \<open>null\<close> and clears the remembered last-active element. On any later page a call
  returns only a video that is detected as a valid candidate then, and with no candidate
  playing the choice among two or more is made by area alone: nothing selected before is
  preferred.
\<close>

theorem getActiveVideo_no_candidates:
  assumes "validVideos c = []"
  shows "fst (getActiveVideo now c) = None
       \<and> lastActiveVideo (snd (getActiveVideo now c)) = None
       \<and> (\<forall>e p g now2. 
            let c2 = (snd (getActiveVideo now c))\<lparr>elems := e, platformQuery := p, genericQuery := g\<rparr>
            in (\<forall>w. fst (getActiveVideo now2 c2) = Some w \<longrightarrow> w \<in> set (validVideos c2))
             \<and> (2 \<le> length (validVideos c2) \<and> filter (isPlaying c2) (validVideos c2) = []
                  \<longrightarrow> fst (getActiveVideo now2 c2) = firstMax (area c2) (validVideos c2)))"
proof -
  have n: "fst (getActiveVideo now c) = None"
    using assms by (simp add: getActiveVideo_unfold)
  have l: "lastActiveVideo (snd (getActiveVideo now c)) = None"
    using n by (simp add: getActiveVideo_lastActive)
  have later: "(\<forall>w. fst (getActiveVideo now2 c2) = Some w \<longrightarrow> w \<in> set (validVideos c2))
             \<and> (2 \<le> length (validVideos c2) \<and> filter (isPlaying c2) (validVideos c2) = []
                  \<longrightarrow> fst (getActiveVideo now2 c2) = firstMax (area c2) (validVideos c2))"
    if c2: "c2 = (snd (getActiveVideo now c))\<lparr>elems := e, platformQuery := p, genericQuery := g\<rparr>"
    for e p g now2 c2
  proof -
    have l2: "lastActiveVideo c2 = None" using l c2 by simp
    have a: "\<forall>w. fst (getActiveVideo now2 c2) = Some w \<longrightarrow> w \<in> set (validVideos c2)"
      using getActiveVideo_in_candidates by blast
    have b: "fst (getActiveVideo now2 c2) = firstMax (area c2) (validVideos c2)"
      if "2 \<le> length (validVideos c2)" "filter (isPlaying c2) (validVideos c2) = []"
    proof -
      let ?cD = "updateTrackedVideos now2 (validVideos c2) c2"
      have ne: "validVideos c2 \<noteq> []" using that(1) by auto
      obtain m where m: "firstMax (area c2) (validVideos c2) = Some m"
        using firstMax_exists [OF ne] by blast
      have ar: "area ?cD = area c2" by (rule ext) (simp add: area_def)
      have pl: "isPlaying ?cD = isPlaying c2" by (rule ext) (simp add: isPlaying_def)
      have "selectActive_spec ?cD (validVideos c2) = Some m"
        using that(2) l2 m by (simp add: selectActive_spec_def Let_def ar pl)
      then show ?thesis using that(1) m ne by (simp add: getActiveVideo_unfold Let_def)
    qed
    show ?thesis using a b by blast
  qed
  show ?thesis using n l later by (simp add: Let_def)
qed

section \<open>Applying the boost: claims C2 and C7\<close>

lemma getActiveVideo_entry:
  assumes "fst (getActiveVideo now c) = Some v"
  shows "\<exists>st'. map_of (trackedVideos (snd (getActiveVideo now c))) v = Some st'
           \<and> (case map_of (trackedVideos c) v of
                 Some st \<Rightarrow> originalRate st' = originalRate st
                            \<and> isSpeedBoosted st' = isSpeedBoosted st
               | None \<Rightarrow> originalRate st' = playbackRate (elems c v) \<and> \<not> isSpeedBoosted st')"
proof -
  have v: "v \<in> set (validVideos c)" using assms by (rule getActiveVideo_in_candidates)
  let ?cD = "updateTrackedVideos now (validVideos c) c"
  have d: "map_of (trackedVideos ?cD) v =
             (case map_of (trackedVideos c) v of
                Some st \<Rightarrow> Some st | None \<Rightarrow> Some (newVideoState c now v))"
    using v by (simp add: map_of_updateTrackedVideos)
  have "trackedVideos (snd (getActiveVideo now c)) = trackedVideos ?cD
        \<or> trackedVideos (snd (getActiveVideo now c)) = touch now v (trackedVideos ?cD)"
    using assms by (auto simp: getActiveVideo_unfold Let_def split: if_splits option.splits)
  then show ?thesis
    using d by (auto simp: touch_def map_of_modifyState newVideoState_def split: option.splits)
qed

lemma stateOrNew_known:
  "map_of (trackedVideos c) v = Some st \<Longrightarrow> stateOrNew v dflt c = (st, c)"
  by (simp add: stateOrNew_def)

lemma applySpeedBoost_boosted:
  assumes "fst (getActiveVideo now c) = Some v"
    and "map_of (trackedVideos (snd (getActiveVideo now c))) v = Some st'"
    and "isSpeedBoosted st'"
  shows "applySpeedBoost now arg c = (True, snd (getActiveVideo now c))"
  using assms
  by (simp add: applySpeedBoost_def Let_def stateOrNew_known case_prod_beta)



text \<open>
  Claim C7. While the active video is already boosted, a call of \<open>applySpeedBoost\<close>
  with any multiplier returns success and changes neither the playback rate of the video
  nor its tracked \<open>originalRate\<close>, and the video stays marked as boosted: the rate
  stays at the multiplier applied first and the original rate at the snapshot taken then.
\<close>

theorem applySpeedBoost_idempotent_while_boosted:
  assumes "fst (getActiveVideo now c) = Some v"
    and "map_of (trackedVideos c) v = Some st"
    and "isSpeedBoosted st"
  shows "fst (applySpeedBoost now arg c) = True
       \<and> playbackRate (elems (snd (applySpeedBoost now arg c)) v) = playbackRate (elems c v)
       \<and> (\<exists>st'. map_of (trackedVideos (snd (applySpeedBoost now arg c))) v = Some st'
                \<and> originalRate st' = originalRate st \<and> isSpeedBoosted st')"
proof -
  obtain st' where st': "map_of (trackedVideos (snd (getActiveVideo now c))) v = Some st'"
      "originalRate st' = originalRate st" "isSpeedBoosted st'"
    using getActiveVideo_entry [OF assms(1)] assms(2,3) by auto
  have "applySpeedBoost now arg c = (True, snd (getActiveVideo now c))"
    using assms(1) st'(1,3) by (rule applySpeedBoost_boosted)
  then show ?thesis using st' by simp
qed


section \<open>Selecting again after a selection\<close>






section \<open>Hotkey matching: claim C5\<close>


section \<open>Hotkey validation: claim C9\<close>













section \<open>Boost followed by restore: claim C3\<close>






section \<open>Losing focus while boosted: claim C4\<close>

lemma clearAutoHideTimer_proj [simp]:
  "elems (clearAutoHideTimer c) = elems c"
  "trackedVideos (clearAutoHideTimer c) = trackedVideos c"
  "hotkeyState (clearAutoHideTimer c) = hotkeyState c"
  "indicators (clearAutoHideTimer c) = indicators c"
  "lastActiveVideo (clearAutoHideTimer c) = lastActiveVideo c"
  by (simp_all add: clearAutoHideTimer_def)

lemma hideSpeedIndicator_proj [simp]:
  "elems (hideSpeedIndicator c) = elems c"
  "trackedVideos (hideSpeedIndicator c) = trackedVideos c"
  "hotkeyState (hideSpeedIndicator c) = hotkeyState c"
  "lastActiveVideo (hideSpeedIndicator c) = lastActiveVideo c"
  by (simp_all add: hideSpeedIndicator_def split: list.splits)

lemma hideSpeedIndicator_hidden [simp]: "\<not> isSpeedIndicatorVisible (hideSpeedIndicator c)"
  by (simp add: hideSpeedIndicator_def isSpeedIndicatorVisible_def split: list.splits)

lemma resetHotkeyState_proj [simp]:
  "elems (resetHotkeyState c) = elems c"
  "trackedVideos (resetHotkeyState c) = trackedVideos c"
  "indicators (resetHotkeyState c) = indicators c"
  "lastActiveVideo (resetHotkeyState c) = lastActiveVideo c"
  by (simp_all add: resetHotkeyState_def)

lemma validVideos_hiddenBoostedVideo: "validVideos hiddenBoostedVideo = []"
  by (simp add: validVideos_def hiddenBoostedVideo_def boostedVideo_def plainPage_def
      uniqueVideos_def isValidVideo_def videoElement_def)

lemma getActiveVideo_hiddenBoostedVideo:
  "getActiveVideo now hiddenBoostedVideo
     = (None, hiddenBoostedVideo\<lparr>trackedVideos := [], lastActiveVideo := None\<rparr>)"
  by (simp add: getActiveVideo_unfold validVideos_hiddenBoostedVideo updateTrackedVideos_def)

lemma restoreOriginalSpeed_hiddenBoostedVideo:
  "restoreOriginalSpeed now hiddenBoostedVideo
     = (False, hiddenBoostedVideo\<lparr>trackedVideos := [], lastActiveVideo := None\<rparr>)"
  by (simp add: restoreOriginalSpeed_def getActiveVideo_hiddenBoostedVideo)

lemma pressed_hiddenBoostedVideo: "isPressed (hotkeyState hiddenBoostedVideo)"
  by (simp add: hiddenBoostedVideo_def boostedVideo_def heldHotkey_def)

lemma deactivateSpeedBoost_hiddenBoostedVideo:
  "deactivateSpeedBoost now hiddenBoostedVideo
     = resetHotkeyState (hiddenBoostedVideo\<lparr>trackedVideos := [], lastActiveVideo := None\<rparr>)"
  by (simp add: deactivateSpeedBoost_def pressed_hiddenBoostedVideo
      restoreOriginalSpeed_hiddenBoostedVideo)

lemma handleWindowBlur_hiddenBoostedVideo:
  "isPressed (hotkeyState hiddenBoostedVideo)
   \<and> map_of (trackedVideos hiddenBoostedVideo) 0 = Some (tracked 1 True 5)
   \<and> attached (elems hiddenBoostedVideo 0)
   \<and> playbackRate (elems hiddenBoostedVideo 0) = 2
   \<and> playbackRate (elems (handleWindowBlur 100 hiddenBoostedVideo) 0) = 2
   \<and> trackedVideos (handleWindowBlur 100 hiddenBoostedVideo) = []"
  by (simp add: handleWindowBlur_def pressed_hiddenBoostedVideo
      deactivateSpeedBoost_hiddenBoostedVideo resetAllSpeeds_def)
     (simp add: hiddenBoostedVideo_def boostedVideo_def plainPage_def videoElement_def)

lemma hidden_tab_simps:
  "validVideos (c\<lparr>docHidden := b\<rparr>) = validVideos c"
  by (simp add: validVideos_def)

lemma handleVisibilityChange_hiddenBoostedVideo:
  "playbackRate (elems (handleVisibilityChange 100 (hiddenBoostedVideo\<lparr>docHidden := True\<rparr>)) 0) = 2
   \<and> trackedVideos (handleVisibilityChange 100 (hiddenBoostedVideo\<lparr>docHidden := True\<rparr>)) = []"
  by (simp add: handleVisibilityChange_def deactivateSpeedBoost_def restoreOriginalSpeed_def
      getActiveVideo_unfold hidden_tab_simps validVideos_hiddenBoostedVideo
      updateTrackedVideos_def resetAllSpeeds_def pressed_hiddenBoostedVideo)
     (simp add: hiddenBoostedVideo_def boostedVideo_def plainPage_def videoElement_def)

text \<open>
  Claim C4 does not hold of the code. The hotkey is held and video 0 is tracked and
  boosted from rate 1 to rate 2; the page has hidden the video with \<open>display: none\<close>,
  the video is still in the document. On window blur, and on the tab becoming hidden, the
  detection inside \<open>restoreOriginalSpeed\<close> drops the entry of the video because the video
  is not valid any more, and \<open>resetAllSpeeds\<close> finds nothing to reset: the video keeps
  the boosted rate 2 and is no longer tracked.
\<close>

theorem focus_loss_leaves_hidden_video_boosted:
  "isPressed (hotkeyState hiddenBoostedVideo)
   \<and> map_of (trackedVideos hiddenBoostedVideo) 0 = Some (tracked 1 True 5)
   \<and> attached (elems hiddenBoostedVideo 0)
   \<and> playbackRate (elems hiddenBoostedVideo 0) = 2
   \<and> playbackRate (elems (handleWindowBlur 100 hiddenBoostedVideo) 0) = 2
   \<and> trackedVideos (handleWindowBlur 100 hiddenBoostedVideo) = []
   \<and> playbackRate
        (elems (handleVisibilityChange 100 (hiddenBoostedVideo\<lparr>docHidden := True\<rparr>)) 0) = 2
   \<and> trackedVideos (handleVisibilityChange 100 (hiddenBoostedVideo\<lparr>docHidden := True\<rparr>)) = []"
  using handleWindowBlur_hiddenBoostedVideo handleVisibilityChange_hiddenBoostedVideo
  by simp

subsection \<open>What holds on losing focus\<close>

lemma unboost_idem [simp]: "unboost (unboost st) = unboost st"
  by (simp add: unboost_def)

lemma unboost_not_boosted: "\<not> isSpeedBoosted st \<Longrightarrow> unboost st = st"
  by (simp add: unboost_def)

lemma unboost_proj [simp]:
  "isSpeedBoosted (unboost st) = False" "originalRate (unboost st) = originalRate st"
  by (simp_all add: unboost_def)

text \<open>One step of the reset loop when the assignment does not throw.\<close>

lemma resetStep_accepting:
  assumes "acceptsRate (elems c v) (originalRate st)" and "map_of (trackedVideos c) v = Some st"
    and "isSpeedBoosted st"
  shows "resetStep v (n, c) =
           (n + 1, c\<lparr>elems := (elems c)(v := (elems c v)\<lparr>playbackRate := originalRate st\<rparr>),
                     trackedVideos := modifyState v (\<lambda>st. st\<lparr>isSpeedBoosted := False\<rparr>)
                                        (trackedVideos c)\<rparr>)"
  using assms by (simp add: resetStep_def setPlaybackRate_def)

lemma resetStep_idle:
  assumes "map_of (trackedVideos c) v = None
           \<or> (\<exists>st. map_of (trackedVideos c) v = Some st \<and> \<not> isSpeedBoosted st)"
  shows "resetStep v (n, c) = (n, c)"
  using assms by (auto simp: resetStep_def)

lemma fold_resetStep_tracked:
  assumes "\<forall>w r. acceptsRate (elems c w) r"
  shows "map_of (trackedVideos (snd (fold resetStep ks (n, c)))) v =
           (if v \<in> set ks then map_option unboost (map_of (trackedVideos c) v)
            else map_of (trackedVideos c) v)"
  using assms
proof (induction ks arbitrary: n c)
  case Nil
  show ?case by simp
next
  case (Cons k ks)
  show ?case
  proof (cases "\<exists>st. map_of (trackedVideos c) k = Some st \<and> isSpeedBoosted st")
    case False
    then have idle: "map_of (trackedVideos c) k = None
           \<or> (\<exists>st. map_of (trackedVideos c) k = Some st \<and> \<not> isSpeedBoosted st)"
      by (cases "map_of (trackedVideos c) k") auto
    have "v = k \<Longrightarrow> map_option unboost (map_of (trackedVideos c) v) = map_of (trackedVideos c) v"
      using idle by (auto simp: unboost_not_boosted)
    then show ?thesis
      using Cons.IH [OF Cons.prems, of n] resetStep_idle [OF idle, of n] by auto
  next
    case True
    then obtain st where st: "map_of (trackedVideos c) k = Some st" "isSpeedBoosted st" by blast
    have a: "acceptsRate (elems c k) (originalRate st)" using Cons.prems by simp
    note reset = st resetStep_accepting [OF a st, of n]
    let ?c1 = "c\<lparr>elems := (elems c)(k := (elems c k)\<lparr>playbackRate := originalRate st\<rparr>),
                 trackedVideos := modifyState k (\<lambda>st. st\<lparr>isSpeedBoosted := False\<rparr>)
                                    (trackedVideos c)\<rparr>"
    have acc: "\<forall>w r. acceptsRate (elems ?c1 w) r" using Cons.prems by simp
    have m: "map_of (trackedVideos ?c1) v =
               (if v = k then map_option unboost (map_of (trackedVideos c) v)
                else map_of (trackedVideos c) v)"
      by (simp add: map_of_modifyState unboost_def [abs_def])
    show ?thesis
      using Cons.IH [OF acc, of "n + 1"] reset(3) m
      by (auto simp: option.map_comp comp_def)
  qed
qed

lemma fold_resetStep_rate:
  assumes "\<forall>w r. acceptsRate (elems c w) r"
  shows "playbackRate (elems (snd (fold resetStep ks (n, c))) v) =
           (case map_of (trackedVideos c) v of
              Some st \<Rightarrow> if v \<in> set ks \<and> isSpeedBoosted st then originalRate st
                         else playbackRate (elems c v)
            | None \<Rightarrow> playbackRate (elems c v))"
  using assms
proof (induction ks arbitrary: n c)
  case Nil
  show ?case by (simp split: option.splits)
next
  case (Cons k ks)
  show ?case
  proof (cases "\<exists>st. map_of (trackedVideos c) k = Some st \<and> isSpeedBoosted st")
    case False
    then have idle: "map_of (trackedVideos c) k = None
           \<or> (\<exists>st. map_of (trackedVideos c) k = Some st \<and> \<not> isSpeedBoosted st)"
      by (cases "map_of (trackedVideos c) k") auto
    then show ?thesis
      using Cons.IH [OF Cons.prems, of n] resetStep_idle [OF idle, of n]
      by (auto split: option.splits)
  next
    case True
    then obtain st where st: "map_of (trackedVideos c) k = Some st" "isSpeedBoosted st" by blast
    have a: "acceptsRate (elems c k) (originalRate st)" using Cons.prems by simp
    note reset = st resetStep_accepting [OF a st, of n]
    let ?c1 = "c\<lparr>elems := (elems c)(k := (elems c k)\<lparr>playbackRate := originalRate st\<rparr>),
                 trackedVideos := modifyState k (\<lambda>st. st\<lparr>isSpeedBoosted := False\<rparr>)
                                    (trackedVideos c)\<rparr>"
    have acc: "\<forall>w r. acceptsRate (elems ?c1 w) r" using Cons.prems by simp
    show ?thesis
      using Cons.IH [OF acc, of "n + 1"] reset
      by (auto simp: map_of_modifyState split: option.splits)
  qed
qed

lemma resetStep_other:
  "hotkeyState (snd (resetStep v acc)) = hotkeyState (snd acc)"
  "indicators (snd (resetStep v acc)) = indicators (snd acc)"
  "autoHideTimer (snd (resetStep v acc)) = autoHideTimer (snd acc)"
  by (simp_all add: resetStep_def setPlaybackRate_def case_prod_beta Let_def
      split: option.splits jsval.splits)

lemma fold_resetStep_other:
  "hotkeyState (snd (fold resetStep ks acc)) = hotkeyState (snd acc)"
  "indicators (snd (fold resetStep ks acc)) = indicators (snd acc)"
  "autoHideTimer (snd (fold resetStep ks acc)) = autoHideTimer (snd acc)"
  by (induction ks arbitrary: acc) (simp_all add: resetStep_other)


lemma resetAllSpeeds_tracked:
  assumes "\<forall>w r. acceptsRate (elems c w) r"
  shows "map_of (trackedVideos (snd (resetAllSpeeds c))) v
           = map_option unboost (map_of (trackedVideos c) v)"
proof -
  have "v \<notin> set (map fst (trackedVideos c)) \<Longrightarrow> map_of (trackedVideos c) v = None"
    by (simp add: map_of_eq_None_iff)
  then show ?thesis
    using fold_resetStep_tracked [OF assms, of "map fst (trackedVideos c)" 0 v]
    by (auto simp: resetAllSpeeds_def case_prod_beta)
qed

lemma resetAllSpeeds_rate:
  assumes "\<forall>w r. acceptsRate (elems c w) r"
  shows "playbackRate (elems (snd (resetAllSpeeds c)) v) =
           (case map_of (trackedVideos c) v of
              Some st \<Rightarrow> if isSpeedBoosted st then originalRate st
                         else playbackRate (elems c v)
            | None \<Rightarrow> playbackRate (elems c v))"
proof -
  have "map_of (trackedVideos c) v \<noteq> None \<Longrightarrow> v \<in> set (map fst (trackedVideos c))"
    by (simp add: map_of_eq_None_iff)
  then show ?thesis
    using fold_resetStep_rate [OF assms, of "map fst (trackedVideos c)" 0 v]
    by (auto simp: resetAllSpeeds_def case_prod_beta split: option.splits)
qed

lemma isSpeedIndicatorVisible_clear:
  "isSpeedIndicatorVisible (clearAutoHideTimer c) = isSpeedIndicatorVisible c"
  by (simp add: isSpeedIndicatorVisible_def)

lemma resetAllSpeeds_other:
  "hotkeyState (snd (resetAllSpeeds c)) = hotkeyState c"
  "\<not> isSpeedIndicatorVisible (snd (resetAllSpeeds c))"
  by (simp_all add: resetAllSpeeds_def case_prod_beta fold_resetStep_other)

text \<open>What a selection does to the entries that were tracked before.\<close>

lemma getActiveVideo_keeps_entries:
  assumes "map_of (trackedVideos (snd (getActiveVideo now c))) v = Some s'"
    and "map_of (trackedVideos c) v = Some st"
  shows "originalRate s' = originalRate st \<and> isSpeedBoosted s' = isSpeedBoosted st"
proof -
  let ?cD = "updateTrackedVideos now (validVideos c) c"
  have t: "trackedVideos (snd (getActiveVideo now c)) = trackedVideos ?cD
        \<or> (\<exists>a. trackedVideos (snd (getActiveVideo now c)) = touch now a (trackedVideos ?cD))"
    by (auto simp: getActiveVideo_unfold Let_def split: if_splits option.splits)
  have d: "map_of (trackedVideos ?cD) v = Some st \<or> map_of (trackedVideos ?cD) v = None"
    using assms(2) by (simp add: map_of_updateTrackedVideos)
  show ?thesis
    using t d assms(1)
    by (auto simp: touch_def map_of_modifyState split: if_splits)
qed

text \<open>
  What \<open>restoreOriginalSpeed\<close> does: nothing beyond the selection, or the rate of the
  active video goes back to its original rate and the video is no longer marked.
\<close>

lemma restoreOriginalSpeed_effect:
  fixes now c
  defines "cA \<equiv> snd (getActiveVideo now c)"
  defines "cR \<equiv> snd (restoreOriginalSpeed now c)"
  shows "(elems cR = elems cA \<and> trackedVideos cR = trackedVideos cA)
       \<or> (\<exists>a s. map_of (trackedVideos cA) a = Some s \<and> isSpeedBoosted s
              \<and> elems cR = (elems cA)(a := (elems cA a)\<lparr>playbackRate := originalRate s\<rparr>)
              \<and> trackedVideos cR
                   = modifyState a (\<lambda>st. st\<lparr>isSpeedBoosted := False\<rparr>) (trackedVideos cA))"
proof (cases "fst (getActiveVideo now c)")
  case None
  then show ?thesis
    by (simp add: cR_def cA_def restoreOriginalSpeed_def case_prod_beta)
next
  case (Some a)
  obtain s where s: "map_of (trackedVideos (snd (getActiveVideo now c))) a = Some s"
    using getActiveVideo_entry [OF Some] by blast
  show ?thesis
  proof (cases "isSpeedBoosted s \<and> acceptsRate (elems c a) (originalRate s)")
    case True
    then have "elems cR = (elems cA)(a := (elems cA a)\<lparr>playbackRate := originalRate s\<rparr>)
       \<and> trackedVideos cR = modifyState a (\<lambda>st. st\<lparr>isSpeedBoosted := False\<rparr>) (trackedVideos cA)"
      using Some s
      by (simp add: cR_def cA_def restoreOriginalSpeed_def case_prod_beta Let_def
          stateOrNew_known setPlaybackRate_def)
    then show ?thesis using s True unfolding cA_def by blast
  next
    case False
    then have "cR = cA"
      using Some s
      by (auto simp add: cR_def cA_def restoreOriginalSpeed_def case_prod_beta Let_def
          stateOrNew_known setPlaybackRate_def)
    then show ?thesis by simp
  qed
qed

lemma restoreOriginalSpeed_accepts:
  "acceptsRate (elems (snd (restoreOriginalSpeed now c)) w) = acceptsRate (elems c w)"
  using restoreOriginalSpeed_effect [of now c] by auto

lemma restoreOriginalSpeed_hotkeyState [simp]:
  "hotkeyState (snd (restoreOriginalSpeed now c)) = hotkeyState c"
  by (simp add: restoreOriginalSpeed_def case_prod_beta Let_def stateOrNew_def
      setPlaybackRate_def split: option.splits)

lemma deactivateSpeedBoost_pressed:
  assumes "isPressed (hotkeyState c)"
  shows "hotkeyState (deactivateSpeedBoost now c) = idleHotkey"
    and "elems (deactivateSpeedBoost now c) = elems (snd (restoreOriginalSpeed now c))"
    and "trackedVideos (deactivateSpeedBoost now c)
           = trackedVideos (snd (restoreOriginalSpeed now c))"
  using assms
  by (simp_all add: deactivateSpeedBoost_def case_prod_beta Let_def)
     (simp add: resetHotkeyState_def idleHotkey_def)

text \<open>
  What does hold on losing focus while the hotkey is held, when no assignment of a rate
  throws: the hotkey state is reset, the indicator is hidden, no video that is still
  tracked is marked as boosted, and a video that was boosted and is still tracked has its
  original rate.
\<close>

lemma focus_loss_restores_tracked_videos:
  assumes pressed: "isPressed (hotkeyState c)"
    and acc: "\<forall>w r. acceptsRate (elems c w) r"
    and after: "c' = handleWindowBlur now c
                \<or> (docHidden c \<and> c' = handleVisibilityChange now c)"
  shows "hotkeyState c' = idleHotkey"
    and "\<not> isSpeedIndicatorVisible c'"
    and "map_of (trackedVideos c') v = Some s' \<Longrightarrow> \<not> isSpeedBoosted s'"
    and "map_of (trackedVideos c') v = Some s' \<Longrightarrow> map_of (trackedVideos c) v = Some st
         \<Longrightarrow> isSpeedBoosted st \<Longrightarrow> playbackRate (elems c' v) = originalRate st"
proof -
  let ?cA = "snd (getActiveVideo now c)"
  let ?cR = "snd (restoreOriginalSpeed now c)"
  let ?c1 = "deactivateSpeedBoost now c"
  let ?c2 = "snd (resetAllSpeeds ?c1)"
  note d = deactivateSpeedBoost_pressed [OF pressed, of now]
  have acc1: "\<forall>w r. acceptsRate (elems ?c1 w) r"
    using acc by (simp add: d(2) restoreOriginalSpeed_accepts)
  have tr: "trackedVideos c' = trackedVideos ?c2" and el: "elems c' = elems ?c2"
    and hk: "hotkeyState c' = hotkeyState ?c2"
    using after pressed
    by (auto simp: handleWindowBlur_def handleVisibilityChange_def Let_def)
  show "hotkeyState c' = idleHotkey"
    by (simp add: hk resetAllSpeeds_other d(1))
  have "c' = clearAutoHideTimer ?c2 \<or> c' = clearAutoHideTimer (hideSpeedIndicator ?c2)"
    using after pressed
    by (auto simp: handleWindowBlur_def handleVisibilityChange_def Let_def)
  then show "\<not> isSpeedIndicatorVisible c'"
    by (auto simp: resetAllSpeeds_other isSpeedIndicatorVisible_clear)
  have t2: "map_of (trackedVideos c') v = map_option unboost (map_of (trackedVideos ?cR) v)"
    by (simp add: tr resetAllSpeeds_tracked [OF acc1] d(3))
  show "\<not> isSpeedBoosted s'" if "map_of (trackedVideos c') v = Some s'"
    using that t2 by auto
  show "playbackRate (elems c' v) = originalRate st"
    if s': "map_of (trackedVideos c') v = Some s'" and st: "map_of (trackedVideos c) v = Some st"
      and b: "isSpeedBoosted st"
  proof -
    obtain sR where sR: "map_of (trackedVideos ?cR) v = Some sR" using s' t2 by auto
    have r2: "playbackRate (elems c' v) =
                (if isSpeedBoosted sR then originalRate sR else playbackRate (elems ?cR v))"
      by (simp add: el resetAllSpeeds_rate [OF acc1] d(2,3) sR)
    from restoreOriginalSpeed_effect [of now c]
    show ?thesis
    proof (elim disjE exE conjE)
      assume same: "elems ?cR = elems ?cA" "trackedVideos ?cR = trackedVideos ?cA"
      have "map_of (trackedVideos ?cA) v = Some sR" using sR same by simp
      then have "originalRate sR = originalRate st \<and> isSpeedBoosted sR = isSpeedBoosted st"
        using st by (rule getActiveVideo_keeps_entries)
      then show ?thesis using r2 b by simp
    next
      fix a s
      assume a: "map_of (trackedVideos ?cA) a = Some s" "isSpeedBoosted s"
        "elems ?cR = (elems ?cA)(a := (elems ?cA a)\<lparr>playbackRate := originalRate s\<rparr>)"
        "trackedVideos ?cR = modifyState a (\<lambda>st. st\<lparr>isSpeedBoosted := False\<rparr>) (trackedVideos ?cA)"
      show ?thesis
      proof (cases "v = a")
        case True
        have "originalRate s = originalRate st"
          using getActiveVideo_keeps_entries [OF a(1)] st True by simp
        moreover have "\<not> isSpeedBoosted sR"
          using sR a(1,4) True by (auto simp: map_of_modifyState)
        ultimately show ?thesis using r2 a(3) True by simp
      next
        case False
        then have "map_of (trackedVideos ?cA) v = Some sR"
          using sR a(4) by (simp add: map_of_modifyState)
        then have "originalRate sR = originalRate st \<and> isSpeedBoosted sR = isSpeedBoosted st"
          using st by (rule getActiveVideo_keeps_entries)
        then show ?thesis using r2 b by simp
      qed
    qed
  qed
qed

section \<open>The claims on the example pages\<close>

lemma isValidVideo_videoElement:
  "isValidVideo (videoElement w h p r) \<longleftrightarrow> 0 < w \<and> 0 < h"
  by (simp add: isValidVideo_def videoElement_def Let_def)

lemma isValidVideo_noVideo: "\<not> isValidVideo noVideo"
  by (simp add: isValidVideo_def noVideo_def videoElement_def)

lemma validVideos_twoVideos: "validVideos twoVideos = [0, 1]"
  by (simp add: validVideos_def twoVideos_def plainPage_def uniqueVideos_def
      isValidVideo_videoElement)

lemma detect_twoVideos:
  "trackedVideos (updateTrackedVideos now [0, 1] twoVideos)
     = [(0, tracked 1 False now), (1, tracked 1 False now)]"
  by (simp add: updateTrackedVideos_def twoVideos_def plainPage_def trackNew_def
      newVideoState_def detectPlatform_def tracked_def videoElement_def)

lemma isPlaying_twoVideos:
  "isPlaying (updateTrackedVideos now vs twoVideos) v \<longleftrightarrow> v = 1"
  by (simp add: isPlaying_def twoVideos_def plainPage_def videoElement_def noVideo_def)

lemma selectActive_twoVideos:
  "selectActive_spec (updateTrackedVideos now [0, Suc 0] twoVideos) [0, Suc 0] = Some (Suc 0)"
  by (simp add: selectActive_spec_def isPlaying_twoVideos)

lemma getActiveVideo_twoVideos: "fst (getActiveVideo now twoVideos) = Some 1"
  by (simp add: getActiveVideo_unfold validVideos_twoVideos selectActive_twoVideos Let_def)


lemma validVideos_trackedVideo: "validVideos trackedVideo = [0]"
  by (simp add: validVideos_def trackedVideo_def plainPage_def uniqueVideos_def
      isValidVideo_videoElement)

lemma validVideos_boostedVideo: "validVideos boostedVideo = [0]"
  by (simp add: validVideos_def boostedVideo_def plainPage_def uniqueVideos_def
      isValidVideo_videoElement)

lemma update_trackedVideo: "updateTrackedVideos now [0] trackedVideo = trackedVideo"
  by (rule updateTrackedVideos_id) (simp add: trackedVideo_def)

lemma update_boostedVideo: "updateTrackedVideos now [0] boostedVideo = boostedVideo"
  by (rule updateTrackedVideos_id) (simp add: boostedVideo_def)

lemma lastActive_trackedVideo: "trackedVideo\<lparr>lastActiveVideo := Some 0\<rparr> = trackedVideo"
  by (simp add: trackedVideo_def)

lemma lastActive_boostedVideo: "boostedVideo\<lparr>lastActiveVideo := Some 0\<rparr> = boostedVideo"
  by (simp add: boostedVideo_def)

lemma getActiveVideo_trackedVideo: "getActiveVideo now trackedVideo = (Some 0, trackedVideo)"
  by (simp add: getActiveVideo_unfold validVideos_trackedVideo update_trackedVideo
      lastActive_trackedVideo)

lemma getActiveVideo_boostedVideo: "getActiveVideo now boostedVideo = (Some 0, boostedVideo)"
  by (simp add: getActiveVideo_unfold validVideos_boostedVideo update_boostedVideo
      lastActive_boostedVideo)

text \<open>
  Claim C8 as stated fails when there is exactly one valid candidate. The tracked video is
  selected at time 100 and recorded as the last active one, and its tracked
  \<open>lastInteraction\<close> is still 5 afterwards.
\<close>

theorem getActiveVideo_single_candidate_counterexample:
  "fst (getActiveVideo 100 trackedVideo) = Some 0
   \<and> lastActiveVideo (snd (getActiveVideo 100 trackedVideo)) = Some 0
   \<and> map_of (trackedVideos trackedVideo) 0 = Some (tracked 1 False 5)
   \<and> map_of (trackedVideos (snd (getActiveVideo 100 trackedVideo))) 0 = Some (tracked 1 False 5)
   \<and> lastInteraction (tracked 1 False 5) \<noteq> 100"
  by (simp add: getActiveVideo_trackedVideo) (simp add: trackedVideo_def tracked_def)

text \<open>The amended claim C8 on two videos at time 1000.\<close>

theorem getActiveVideo_records_selection_witness:
  "fst (getActiveVideo 1000 twoVideos) = Some 1
   \<and> lastActiveVideo (snd (getActiveVideo 1000 twoVideos)) = Some 1
   \<and> (\<exists>st. map_of (trackedVideos (snd (getActiveVideo 1000 twoVideos))) 1 = Some st
           \<and> lastInteraction st = 1000)"
proof -
  have h: "fst (getActiveVideo 1000 twoVideos) = Some 1"
    by (rule getActiveVideo_twoVideos)
  show ?thesis
    using getActiveVideo_records_selection [OF h] h by (simp add: validVideos_twoVideos)
qed



text \<open>Claim C7 on a video boosted from 1 to 2 and a second call with the multiplier 3.\<close>

theorem applySpeedBoost_idempotent_witness:
  "fst (getActiveVideo 100 boostedVideo) = Some 0
   \<and> map_of (trackedVideos boostedVideo) 0 = Some (tracked 1 True 5)
   \<and> isSpeedBoosted (tracked 1 True 5)
   \<and> fst (applySpeedBoost 100 (Num 3) boostedVideo)
   \<and> playbackRate (elems (snd (applySpeedBoost 100 (Num 3) boostedVideo)) 0) = 2
   \<and> (\<exists>st'. map_of (trackedVideos (snd (applySpeedBoost 100 (Num 3) boostedVideo))) 0 = Some st'
           \<and> originalRate st' = 1 \<and> isSpeedBoosted st')"
proof -
  have a: "fst (getActiveVideo 100 boostedVideo) = Some 0"
    by (simp add: getActiveVideo_boostedVideo)
  have t: "map_of (trackedVideos boostedVideo) 0 = Some (tracked 1 True 5)"
    by (simp add: boostedVideo_def)
  have b: "isSpeedBoosted (tracked 1 True 5)" by (simp add: tracked_def)
  have r: "playbackRate (elems boostedVideo 0) = 2" "originalRate (tracked 1 True 5) = 1"
    by (simp_all add: boostedVideo_def plainPage_def videoElement_def tracked_def)
  show ?thesis
    using applySpeedBoost_idempotent_while_boosted [OF a t b, of "Num 3"] a t b r by simp
qed

lemma validVideos_emptyPage: "validVideos emptyPage = []"
  by (simp add: validVideos_def emptyPage_def plainPage_def uniqueVideos_def)

text \<open>Claim C10 on a page without videos that remembers video 7.\<close>

theorem getActiveVideo_no_candidates_witness:
  "validVideos emptyPage = [] \<and> lastActiveVideo emptyPage = Some 7
   \<and> fst (getActiveVideo 100 emptyPage) = None
   \<and> lastActiveVideo (snd (getActiveVideo 100 emptyPage)) = None"
  using getActiveVideo_no_candidates [OF validVideos_emptyPage, of 100]
  by (simp add: validVideos_emptyPage) (simp add: emptyPage_def)

text \<open>Claim C6 on three tracked videos, one of them detached and last active.\<close>

theorem cleanupStaleElements_witness:
  "length (trackedVideos threeTracked) = 3
   \<and> map fst (trackedVideos (snd (cleanupStaleElements threeTracked))) = [0, 1]
   \<and> lastActiveVideo threeTracked = Some 2
   \<and> lastActiveVideo (snd (cleanupStaleElements threeTracked)) = None"
  using cleanupStaleElements_prunes_detached [of threeTracked]
  by (simp add: threeTracked_def plainPage_def videoElement_def noVideo_def)




end
